theory Spec2Isabelle
  imports Complex_Main "HOL-Library.Multiset" "HOL-Library.Log_Nat"
begin

section \<open>Model training notebook: train/test split and class balancing\<close>

text \<open>
  The notebook \<^verbatim>\<open>Notebooks/ModelTraining.ipynb\<close> is a sequence of cells. Three of them
  carry decision logic: the train/test split cell, the function \<^verbatim>\<open>xy_split\<close> and the
  cell that prepares the class targets for the over-sampler. Each is embedded below as a
  function from the values the cell reads to the values it binds.

  The cells call into pandas, scikit-learn and imbalanced-learn. Those calls are embedded by
  small functions that follow the documented behaviour of the library call on the arguments
  the notebook passes; each of them says so. Random draws of a library are arguments of the
  model. The float arithmetic of the balancing cell is binary64 arithmetic, with its
  rounding.
\<close>

subsection \<open>Rows and errors\<close>

text \<open>
  The split cell reads three columns of the table: \<^verbatim>\<open>entryID\<close>, \<^verbatim>\<open>machineID\<close> and
  \<^verbatim>\<open>cycle\<close>. A row carries them as fields and every other column in \<open>rest\<close>.
\<close>

record 'f row =
  entryID :: int
  machineID :: int
  cycle :: int
  rest :: 'f

datatype error = ValueError | KeyError | AttributeError

subsection \<open>\<^verbatim>\<open>sklearn.model_selection.train_test_split\<close>\<close>

text \<open>
  Library call, as documented for a float \<^verbatim>\<open>test_size\<close> and no \<^verbatim>\<open>train_size\<close>:
  the test part has \<open>ceil (test_size * n)\<close> elements and the training part the remaining
  ones (possibly none). A float outside the open interval from 0 to 1 is outside the
  documented domain, and releases of the library differ on it; the model answers
  \<open>ValueError\<close> there, and no property below depends on that branch.
\<close>

definition validate_shuffle_split :: "nat \<Rightarrow> rat \<Rightarrow> error + (nat \<times> nat)" where
  "validate_shuffle_split n_samples test_size =
     (if test_size \<le> 0 \<or> 1 \<le> test_size then Inl ValueError
      else let n_test = nat \<lceil>test_size * of_nat n_samples\<rceil>;
               n_train = n_samples - n_test
           in Inr (n_train, n_test))"

text \<open>
  With \<^verbatim>\<open>shuffle=False\<close> the training part is the first \<open>n_train\<close> elements and the test
  part the \<open>n_test\<close> elements after them.
\<close>

definition train_test_split_ordered :: "rat \<Rightarrow> 'a list \<Rightarrow> error + ('a list \<times> 'a list)" where
  "train_test_split_ordered test_size arr =
     (case validate_shuffle_split (length arr) test_size of
        Inl e \<Rightarrow> Inl e
      | Inr (n_train, n_test) \<Rightarrow> Inr (take n_train arr, take n_test (drop n_train arr)))"

text \<open>
  With \<^verbatim>\<open>random_state=seed\<close> the library draws a permutation of the positions
  \<open>0, ..., n - 1\<close> from a generator seeded with \<open>seed\<close>; the test part is read at the first
  \<open>n_test\<close> positions of the permutation and the training part at the next \<open>n_train\<close>.
  The generator is the argument \<open>rng\<close>: \<open>rng seed n\<close> is the permutation it draws.
\<close>

definition is_permutation :: "nat list \<Rightarrow> nat \<Rightarrow> bool" where
  "is_permutation p n = (sort p = [0..<n])"

definition train_test_split_shuffled ::
    "(nat \<Rightarrow> nat \<Rightarrow> nat list) \<Rightarrow> nat \<Rightarrow> rat \<Rightarrow> 'a list \<Rightarrow> error + ('a list \<times> 'a list)" where
  "train_test_split_shuffled rng seed test_size arr =
     (case validate_shuffle_split (length arr) test_size of
        Inl e \<Rightarrow> Inl e
      | Inr (n_train, n_test) \<Rightarrow>
          let permutation = rng seed (length arr);
              ind_test = take n_test permutation;
              ind_train = take n_train (drop n_test permutation)
          in Inr (map (\<lambda>i. arr ! i) ind_train, map (\<lambda>i. arr ! i) ind_test))"

subsection \<open>The split cell\<close>

text \<open>
  \<^verbatim>\<open>test.reset_index().groupby(['machineID']).cycle.min().apply(lambda x: x - lookback)\<close>:
  one entry for each machine that has rows in \<open>test\<close>, holding the least cycle of these rows
  minus \<open>lookback\<close>.
\<close>

definition min_cycles :: "int \<Rightarrow> 'f row list \<Rightarrow> int \<Rightarrow> int option" where
  "min_cycles lookback test m =
     (case filter (\<lambda>q. machineID q = m) test of
        [] \<Rightarrow> None
      | g # gs \<Rightarrow> Some (min_list (map cycle (g # gs)) - lookback))"

text \<open>
  \<^verbatim>\<open>train.reset_index().join(min_cycles, on='machineID')\<close> is a left join: every training
  row gets the column \<^verbatim>\<open>max_cycle\<close>, which is NaN (\<open>None\<close>) for a machine without an entry.
  A comparison with NaN is false.
\<close>

definition join_max_cycle :: "'f row list \<Rightarrow> (int \<Rightarrow> int option) \<Rightarrow> ('f row \<times> int option) list" where
  "join_max_cycle train mc = map (\<lambda>r. (r, mc (machineID r))) train"

fun isna :: "int option \<Rightarrow> bool" where
  "isna None = True"
| "isna (Some _) = False"

fun lt_nan :: "int \<Rightarrow> int option \<Rightarrow> bool" where
  "lt_nan c None = False"
| "lt_nan c (Some m) = (c < m)"

text \<open>
  The branch \<^verbatim>\<open>if time_split:\<close> of the cell. Rows of equal \<^verbatim>\<open>entryID\<close> stay in their
  order here; pandas leaves their order open.
\<close>

definition time_based_split :: "int \<Rightarrow> rat \<Rightarrow> 'f row list \<Rightarrow> error + ('f row list \<times> 'f row list)" where
  "time_based_split lookback test_size data =
     (let data = sort_key entryID data
      in case train_test_split_ordered test_size data of
           Inl e \<Rightarrow> Inl e
         | Inr (train, test) \<Rightarrow>
             let t = join_max_cycle train (min_cycles lookback test);
                 train = map fst (filter (\<lambda>(r, max_cycle). isna max_cycle \<or> lt_nan (cycle r) max_cycle) t)
             in Inr (train, test))"

text \<open>
  \<^verbatim>\<open>Series.unique()\<close> keeps the first occurrence of every value, in order of appearance.
\<close>

definition unique :: "'a list \<Rightarrow> 'a list" where
  "unique xs = rev (remdups (rev xs))"

definition isin :: "'a \<Rightarrow> 'a list \<Rightarrow> bool" where
  "isin x xs = (x \<in> set xs)"

text \<open>The branch \<^verbatim>\<open>else:\<close> of the cell, the asset ID-based split.\<close>

definition entity_based_split ::
    "(nat \<Rightarrow> nat \<Rightarrow> nat list) \<Rightarrow> nat \<Rightarrow> rat \<Rightarrow> 'f row list \<Rightarrow> error + ('f row list \<times> 'f row list)" where
  "entity_based_split rng seed test_size data =
     (let unique_assets = unique (map machineID data)
      in case train_test_split_shuffled rng seed test_size unique_assets of
           Inl e \<Rightarrow> Inl e
         | Inr (train_assets, test_assets) \<Rightarrow>
             Inr (filter (\<lambda>r. isin (machineID r) train_assets) data,
                  filter (\<lambda>r. isin (machineID r) test_assets) data))"

text \<open>
  The whole cell. \<open>lookback\<close>, \<open>test_size\<close> and \<open>time_split\<close> are the constants set at its
  top (5, 0.2 and \<open>False\<close> in the notebook), \<open>seed\<close> the one set when the data is read (42).
\<close>

definition split_cell ::
    "bool \<Rightarrow> int \<Rightarrow> rat \<Rightarrow> (nat \<Rightarrow> nat \<Rightarrow> nat list) \<Rightarrow> nat \<Rightarrow> 'f row list
       \<Rightarrow> error + ('f row list \<times> 'f row list)" where
  "split_cell time_split lookback test_size rng seed data =
     (if time_split then time_based_split lookback test_size data
      else entity_based_split rng seed test_size data)"

text \<open>Vocabulary of the properties: the machines of a table, and the first test cycle of a machine.\<close>

definition entities :: "'f row list \<Rightarrow> int set" where
  "entities rows = machineID ` set rows"

definition min_test_cycle :: "'f row list \<Rightarrow> int \<Rightarrow> int" where
  "min_test_cycle test m = Min (cycle ` {q \<in> set test. machineID q = m})"

subsection \<open>\<^verbatim>\<open>xy_split\<close>\<close>

text \<open>
  A table seen by its columns: the row index and, in column order, each column's label with
  its values in row order.
\<close>

record 'c frame =
  index :: "int list"
  cols :: "(string \<times> 'c list) list"

text \<open>\<^verbatim>\<open>data.reset_index(drop = True)\<close>: the index becomes \<open>0, 1, ...\<close>; the old one is discarded.\<close>

definition reset_index_drop :: "'c frame \<Rightarrow> 'c frame" where
  "reset_index_drop data = data\<lparr>index := map int [0..<length (index data)]\<rparr>"

text \<open>\<^verbatim>\<open>data.drop(labels, axis=1)\<close> raises \<open>KeyError\<close> when a label is not a column.\<close>

definition drop_columns :: "string list \<Rightarrow> 'c frame \<Rightarrow> error + 'c frame" where
  "drop_columns labels data =
     (if list_all (\<lambda>l. l \<in> set (map fst (cols data))) labels
      then Inr (data\<lparr>cols := filter (\<lambda>(n, v). n \<notin> set labels) (cols data)\<rparr>)
      else Inl KeyError)"

text \<open>\<^verbatim>\<open>data[label]\<close>: the column as a series (index and values), \<open>KeyError\<close> when absent.\<close>

definition getitem :: "'c frame \<Rightarrow> string \<Rightarrow> error + (int list \<times> 'c list)" where
  "getitem data label =
     (case map_of (cols data) label of
        None \<Rightarrow> Inl KeyError
      | Some v \<Rightarrow> Inr (index data, v))"

definition columns_to_drop :: "string list" where
  "columns_to_drop = [''cycle'', ''immediate_failure'', ''rul'', ''sequenceID'', ''machineID'']"

definition xy_split :: "'c frame \<Rightarrow> error + ('c frame \<times> (int list \<times> 'c list))" where
  "xy_split data =
     (let data = reset_index_drop data
      in case drop_columns columns_to_drop data of
           Inl e \<Rightarrow> Inl e
         | Inr X \<Rightarrow>
             (case getitem data ''immediate_failure'' of
                Inl e \<Rightarrow> Inl e
              | Inr y \<Rightarrow> Inr (X, y)))"

subsection \<open>Counting the classes\<close>

text \<open>
  \<^verbatim>\<open>Counter(Y_train)\<close> holds each label with its number of occurrences, in order of first
  appearance. \<^verbatim>\<open>most_common()\<close> sorts the entries by decreasing count and keeps entries of
  equal count in that order.
\<close>

definition Counter :: "'l list \<Rightarrow> ('l \<times> nat) list" where
  "Counter ys = map (\<lambda>l. (l, count_list ys l)) (unique ys)"

definition most_common :: "('l \<times> nat) list \<Rightarrow> ('l \<times> nat) list" where
  "most_common c = rev (sort_key snd (rev c))"

text \<open>\<^verbatim>\<open>minority_classes = all_classes.most_common()[1:]\<close>\<close>

definition minority_classes :: "'l list \<Rightarrow> ('l \<times> nat) list" where
  "minority_classes Y_train = tl (most_common (Counter Y_train))"

subsection \<open>\<^verbatim>\<open>imblearn.over_sampling.SMOTE\<close>\<close>

text \<open>
  Library call. The notebook builds the sampler with \<^verbatim>\<open>SMOTE(ratio=ratio, random_state=seed)\<close>
  and calls \<^verbatim>\<open>fit_sample(X_train, Y_train)\<close>; every other setting is the library's default,
  in particular \<^verbatim>\<open>k_neighbors=5\<close> (the argument \<open>k\<close> below).

  A dictionary \<open>ratio\<close> gives, for each of its classes, the number of rows the class shall
  have afterwards. The library rejects a class that is not in \<open>y\<close> and a number below the
  class's present size, and keeps the difference as the number of rows to make.
\<close>

fun ratio_dict :: "('l \<times> int) list \<Rightarrow> ('l \<times> nat) list \<Rightarrow> error + ('l \<times> nat) list" where
  "ratio_dict [] target_stats = Inr []"
| "ratio_dict ((class_sample, n_samples) # d) target_stats =
     (case map_of target_stats class_sample of
        None \<Rightarrow> Inl ValueError
      | Some cnt \<Rightarrow>
          if n_samples < int cnt then Inl ValueError
          else (case ratio_dict d target_stats of
                  Inl e \<Rightarrow> Inl e
                | Inr r \<Rightarrow> Inr ((class_sample, nat (n_samples - int cnt)) # r)))"

text \<open>
  The library's own default strategy brings every class to the size of the largest one.
\<close>

definition ratio_auto :: "('l \<times> nat) list \<Rightarrow> ('l \<times> nat) list" where
  "ratio_auto target_stats =
     (let n_sample_majority = fold max (map snd target_stats) 0
      in map (\<lambda>(l, c). (l, n_sample_majority - c)) target_stats)"

definition rows_of_class :: "'l \<Rightarrow> 'x list \<Rightarrow> 'l list \<Rightarrow> 'x list" where
  "rows_of_class c X y = map fst (filter (\<lambda>(x, l). l = c) (zip X y))"

text \<open>
  The sampling loop: a class with nothing to make is skipped; otherwise the \<open>k + 1\<close> nearest
  rows of every row of the class are looked up among the rows of the class, which the
  neighbour search refuses (\<open>ValueError\<close>) when the class has fewer than \<open>k + 1\<close> rows; then
  \<open>n_samples\<close> new rows are made and appended with the class's label. \<open>make_sample c X_class j\<close>
  is the \<open>j\<close>-th new row made for class \<open>c\<close>.
\<close>

fun sample_classes ::
    "nat \<Rightarrow> ('l \<Rightarrow> 'x list \<Rightarrow> nat \<Rightarrow> 'x) \<Rightarrow> 'x list \<Rightarrow> 'l list \<Rightarrow> ('l \<times> nat) list
       \<Rightarrow> 'x list \<times> 'l list \<Rightarrow> error + ('x list \<times> 'l list)" where
  "sample_classes k make_sample X y [] resampled = Inr resampled"
| "sample_classes k make_sample X y ((class_sample, n_samples) # r) (X_resampled, y_resampled) =
     (if n_samples = 0 then sample_classes k make_sample X y r (X_resampled, y_resampled)
      else let X_class = rows_of_class class_sample X y
           in if length X_class < k + 1 then Inl ValueError
              else sample_classes k make_sample X y r
                     (X_resampled @ map (make_sample class_sample X_class) [0..<n_samples],
                      y_resampled @ replicate n_samples class_sample))"

text \<open>
  \<^verbatim>\<open>ratio=None\<close> is not a way to switch the sampler off. Releases of the library differ on
  it: 0.3 has no case for it and fails when it reads the targets, 0.4 and 0.5 take it as
  "not given" and apply the default strategy. The argument \<open>policy\<close> selects between the two.
  In both, \<open>X\<close> and \<open>y\<close> of different lengths and a \<open>y\<close> with fewer than two classes are
  rejected first.
\<close>

datatype none_policy = NoneRejected | NoneIsAuto

definition fit_sample ::
    "none_policy \<Rightarrow> nat \<Rightarrow> ('l \<Rightarrow> 'x list \<Rightarrow> nat \<Rightarrow> 'x) \<Rightarrow> ('l \<times> int) list option
       \<Rightarrow> 'x list \<Rightarrow> 'l list \<Rightarrow> error + ('x list \<times> 'l list)" where
  "fit_sample policy k make_sample ratio X y =
     (if length X \<noteq> length y then Inl ValueError
      else if length (unique y) \<le> 1 then Inl ValueError
      else case ratio of
             None \<Rightarrow>
               (case policy of
                  NoneRejected \<Rightarrow> Inl AttributeError
                | NoneIsAuto \<Rightarrow> sample_classes k make_sample X y (ratio_auto (Counter y)) (X, y))
           | Some d \<Rightarrow>
               (case ratio_dict d (Counter y) of
                  Inl e \<Rightarrow> Inl e
                | Inr r \<Rightarrow> sample_classes k make_sample X y r (X, y)))"

subsection \<open>Floating-point numbers\<close>

text \<open>
  A Python float and a numpy \<^verbatim>\<open>float64\<close> are IEEE 754 binary64 numbers: every operation
  returns the number with 53 significant bits that is nearest to the exact result, and of two
  equally near ones the one with the even significand. A number is kept as the rational it
  is, and \<open>double\<close> is that rounding; a sum, product or quotient of the code is \<open>double\<close> of
  the exact one. The range of the exponent (overflow, subnormal numbers) is not modelled: the
  numbers of the cell are row counts, a fraction, and their products and quotients.
\<close>

definition pow2 :: "int \<Rightarrow> rat" where
  "pow2 e = 2 powi e"

definition round_half_even :: "rat \<Rightarrow> int" where
  "round_half_even r =
     (let f = \<lfloor>r\<rfloor>; d = r - of_int f
      in if d < 1 / 2 then f else if 1 / 2 < d then f + 1 else if even f then f else f + 1)"

text \<open>For a positive \<open>a\<close>, the exponent \<open>e\<close> with \<open>2 ^ e \<le> a < 2 ^ (e + 1)\<close>.\<close>

definition ilog2 :: "rat \<Rightarrow> int" where
  "ilog2 a =
     (let (p, q) = quotient_of a; d = bitlen p - bitlen q
      in if pow2 d \<le> a then d else d - 1)"

definition double :: "rat \<Rightarrow> rat" where
  "double x =
     (if x = 0 then 0
      else let e = ilog2 \<bar>x\<bar> - 52
           in sgn x * of_int (round_half_even (\<bar>x\<bar> / pow2 e)) * pow2 e)"

text \<open>\<^verbatim>\<open>int(x)\<close> cuts the fraction off, towards zero.\<close>

definition py_int :: "rat \<Rightarrow> int" where
  "py_int x = (if 0 \<le> x then \<lfloor>x\<rfloor> else \<lceil>x\<rceil>)"

subsection \<open>The balancing cell\<close>

text \<open>
  \<^verbatim>\<open>Y_train.count() * 0.1\<close> is a numpy float, and dividing a numpy float by zero gives an
  infinity or NaN instead of raising. In \<open>np_div a b\<close> the dividend is a float already and
  the divisor an integer, which the division converts.
\<close>

datatype npfloat = Finite rat | PosInf | NegInf | NaN

definition np_div :: "rat \<Rightarrow> nat \<Rightarrow> npfloat" where
  "np_div a b =
     (if b = 0 then (if 0 < a then PosInf else if a < 0 then NegInf else NaN)
      else Finite (double (a / double (of_nat b))))"

text \<open>
  \<open>target_minority_fraction\<close> is the decimal literal of the cell, \<^verbatim>\<open>0.1\<close> in the notebook; the
  float it denotes is \<open>double target_minority_fraction\<close>.
\<close>

definition scale :: "rat \<Rightarrow> 'l list \<Rightarrow> npfloat" where
  "scale target_minority_fraction Y_train =
     (let minority_classes_size = sum_list (map snd (minority_classes Y_train));
          desired_minority_classes_size =
            double (double (of_nat (length Y_train)) * double target_minority_fraction)
      in np_div desired_minority_classes_size minority_classes_size)"

text \<open>\<^verbatim>\<open>int(c[1] * scale)\<close>, for a class of \<open>n\<close> rows.\<close>

definition target :: "nat \<Rightarrow> rat \<Rightarrow> int" where
  "target n s = py_int (double (double (of_nat n) * s))"

text \<open>
  \<^verbatim>\<open>ratio = None\<close>, replaced by the dictionary of targets \<^verbatim>\<open>int(c[1] * scale)\<close> when
  \<^verbatim>\<open>scale > 1\<close>. The scale is infinite only when there is no minority class, and the
  dictionary is empty then.
\<close>

definition ratio :: "rat \<Rightarrow> 'l list \<Rightarrow> ('l \<times> int) list option" where
  "ratio target_minority_fraction Y_train =
     (case scale target_minority_fraction Y_train of
        Finite s \<Rightarrow>
          if s > 1
          then Some (map (\<lambda>c. (fst c, target (snd c) s)) (minority_classes Y_train))
          else None
      | PosInf \<Rightarrow> Some []
      | _ \<Rightarrow> None)"

text \<open>
  The cell: the sampler is always built and always called. \<open>make_sample seed\<close> stands for the
  rows the sampler makes from the generator seeded with \<open>seed\<close>.
\<close>

definition balance ::
    "none_policy \<Rightarrow> nat \<Rightarrow> (nat \<Rightarrow> 'l \<Rightarrow> 'x list \<Rightarrow> nat \<Rightarrow> 'x) \<Rightarrow> nat \<Rightarrow> rat
       \<Rightarrow> 'x list \<Rightarrow> 'l list \<Rightarrow> error + ('x list \<times> 'l list)" where
  "balance policy k make_sample seed target_minority_fraction X_train Y_train =
     fit_sample policy k (make_sample seed) (ratio target_minority_fraction Y_train) X_train Y_train"

text \<open>
  The cell as it stands in the notebook: the sampler's default \<^verbatim>\<open>k_neighbors=5\<close>, the seed 42
  and the literal fraction \<^verbatim>\<open>0.1\<close>.
\<close>

definition balancing_cell ::
    "none_policy \<Rightarrow> (nat \<Rightarrow> 'l \<Rightarrow> 'x list \<Rightarrow> nat \<Rightarrow> 'x) \<Rightarrow> 'x list \<Rightarrow> 'l list
       \<Rightarrow> error + ('x list \<times> 'l list)" where
  "balancing_cell policy make_sample X_train Y_train =
     balance policy 5 make_sample 42 (1 / 10) X_train Y_train"


subsection \<open>The rows the sampler makes\<close>

text \<open>
  Modelled from the spec: how SMOTE makes a new row is library code (imbalanced-learn),
  which is not part of the repository. Following section 4.2, step 6: pick a real row of the
  class, pick one of its \<open>k\<close> nearest neighbours among the rows of the class, and make the
  new row at a random point of the segment between the two.

  The random choices and the neighbour table are the argument \<open>d\<close>: for the \<open>j\<close>-th new row
  of a class, \<open>randint\<close> is the integer drawn below \<open>high\<close> (it selects an entry of the
  neighbour table, which has \<open>k\<close> columns), \<open>uniform\<close> the step drawn between 0 and 1, and
  \<open>nns X_class row col\<close> the position in \<open>X_class\<close> of the neighbour found in that entry.
\<close>

record 'l draws =
  randint :: "nat \<Rightarrow> 'l \<Rightarrow> nat \<Rightarrow> nat \<Rightarrow> nat"
  uniform :: "nat \<Rightarrow> 'l \<Rightarrow> nat \<Rightarrow> rat"
  nns :: "rat list list \<Rightarrow> nat \<Rightarrow> nat \<Rightarrow> nat"

definition make_samples :: "'l draws \<Rightarrow> nat \<Rightarrow> nat \<Rightarrow> 'l \<Rightarrow> rat list list \<Rightarrow> nat \<Rightarrow> rat list" where
  "make_samples d k seed y_type X_class j =
     (let samples_index = randint d seed y_type j (length X_class * k);
          step = uniform d seed y_type j;
          row = samples_index div k;
          col = samples_index mod k;
          x = X_class ! row;
          z = X_class ! (nns d X_class row col)
      in map2 (\<lambda>a b. a - step * (a - b)) x z)"

text \<open>What the library's generator and neighbour search guarantee about these values.\<close>

definition draws_ok :: "'l draws \<Rightarrow> nat \<Rightarrow> bool" where
  "draws_ok d seed \<longleftrightarrow>
     (\<forall>c j high. 0 < high \<longrightarrow> randint d seed c j high < high)
   \<and> (\<forall>c j. 0 \<le> uniform d seed c j \<and> uniform d seed c j \<le> 1)
   \<and> (\<forall>X_class row col. row < length X_class \<longrightarrow> nns d X_class row col < length X_class)"

text \<open>
  The convex hull of a set of feature vectors: the vectors reached from the set by taking
  points of segments.
\<close>

inductive convex_hull :: "rat list set \<Rightarrow> rat list \<Rightarrow> bool" for S :: "rat list set" where
  point: "x \<in> S \<Longrightarrow> convex_hull S x"
| segment: "convex_hull S u \<Longrightarrow> convex_hull S v \<Longrightarrow> 0 \<le> t \<Longrightarrow> t \<le> 1
            \<Longrightarrow> convex_hull S (map2 (\<lambda>a b. (1 - t) * a + t * b) u v)"

subsection \<open>Example inputs\<close>

text \<open>A small log: machine 1 runs for eight cycles, machine 2 for two, entered in time order.\<close>

definition obs :: "int \<Rightarrow> int \<Rightarrow> int \<Rightarrow> unit row" where
  "obs e m c = \<lparr>entryID = e, machineID = m, cycle = c, rest = ()\<rparr>"

definition example_log :: "unit row list" where
  "example_log =
     [obs 1 1 1, obs 2 1 2, obs 3 1 3, obs 4 2 1, obs 5 2 2,
      obs 6 1 4, obs 7 1 5, obs 8 1 6, obs 9 1 7, obs 10 1 8]"

text \<open>A generator that always draws the positions in decreasing order.\<close>

definition descending :: "nat \<Rightarrow> nat \<Rightarrow> nat list" where
  "descending seed n = rev [0..<n]"

text \<open>A fleet of ten machines with two observations each.\<close>

definition example_fleet :: "unit row list" where
  "example_fleet =
     [obs 1 11 1, obs 2 12 1, obs 3 13 1, obs 4 14 1, obs 5 15 1,
      obs 6 16 1, obs 7 17 1, obs 8 18 1, obs 9 19 1, obs 10 20 1,
      obs 11 11 2, obs 12 12 2, obs 13 13 2, obs 14 14 2, obs 15 15 2,
      obs 16 16 2, obs 17 17 2, obs 18 18 2, obs 19 19 2, obs 20 20 2]"

text \<open>A second generator, which agrees with \<open>descending\<close> on seed 42 only.\<close>

definition other_rng :: "nat \<Rightarrow> nat \<Rightarrow> nat list" where
  "other_rng seed n = (if seed = 42 then rev [0..<n] else [0..<n])"

text \<open>A training table of three rows, indexed by \<^verbatim>\<open>entryID\<close>, with two sensor columns.\<close>

datatype cell = Num rat | Str string

definition example_frame :: "cell frame" where
  "example_frame =
     \<lparr>index = [7, 8, 9],
      cols = [(''machineID'', [Num 1, Num 1, Num 2]),
              (''cycle'', [Num 1, Num 2, Num 1]),
              (''s1_mean'', [Num 3, Num 4, Num 5]),
              (''immediate_failure'', [Str '''', Str ''F1'', Str '''']),
              (''rul'', [Num 10, Num 9, Num 20]),
              (''s2_mean'', [Num 6, Num 7, Num 8]),
              (''sequenceID'', [Num 0, Num 0, Num 1])]\<rparr>"

text \<open>
  Draws for the examples: always the first entry of the neighbour table, always the middle
  of the segment, and as neighbours of a row the rows that follow it, cyclically.
\<close>

definition example_draws :: "string draws" where
  "example_draws =
     \<lparr>randint = (\<lambda>seed c j high. 0),
      uniform = (\<lambda>seed c j. 1 / 2),
      nns = (\<lambda>X_class row col. (row + col + 1) mod length X_class)\<rparr>"

text \<open>Feature tables with one column, holding \<open>0, 1, 2, ...\<close>, and label vectors for them.\<close>

definition features :: "nat \<Rightarrow> rat list list" where
  "features n = map (\<lambda>i. [of_nat i]) [0..<n]"

definition labels_7_6 :: "string list" where
  "labels_7_6 = replicate 7 '''' @ replicate 6 ''F1''"

definition labels_8_6 :: "string list" where
  "labels_8_6 = replicate 8 '''' @ replicate 6 ''F1''"




definition labels_9_1 :: "string list" where
  "labels_9_1 = replicate 9 '''' @ replicate 1 ''F1''"



section \<open>Properties of the split cell\<close>

lemma validate_ok:
  "0 < test_size \<Longrightarrow> test_size < 1 \<Longrightarrow>
   validate_shuffle_split n test_size
     = Inr (n - nat \<lceil>test_size * of_nat n\<rceil>, nat \<lceil>test_size * of_nat n\<rceil>)"
  by (simp add: validate_shuffle_split_def Let_def)

lemma n_test_le:
  assumes "0 < test_size" "test_size < 1"
  shows "nat \<lceil>test_size * of_nat n\<rceil> \<le> n"
proof -
  have "test_size * of_nat n \<le> of_nat n"
    using assms by (simp add: mult_left_le_one_le)
  then have "\<lceil>test_size * of_nat n\<rceil> \<le> int n"
    by (simp add: ceiling_le_iff)
  then show ?thesis by simp
qed

subsection \<open>Time-based split\<close>

lemma min_cycles_eq:
  "min_cycles lookback test m =
     (if m \<in> entities test then Some (min_test_cycle test m - lookback) else None)"
proof (cases "filter (\<lambda>q. machineID q = m) test")
  case Nil
  then have "m \<notin> entities test"
    by (auto simp: entities_def filter_empty_conv)
  with Nil show ?thesis by (simp add: min_cycles_def)
next
  case (Cons g gs)
  then have "filter (\<lambda>q. machineID q = m) test \<noteq> []" by simp
  then have "m \<in> entities test"
    by (auto simp: entities_def filter_empty_conv)
  moreover have "min_list (map cycle (g # gs)) = min_test_cycle test m"
  proof -
    have "min_list (map cycle (g # gs)) = Min (set (map cycle (g # gs)))"
      by (rule min_list_Min) simp
    also have "set (map cycle (g # gs)) = cycle ` {q \<in> set test. machineID q = m}"
      unfolding Cons [symmetric] by auto
    finally show ?thesis by (simp add: min_test_cycle_def)
  qed
  ultimately show ?thesis using Cons by (simp add: min_cycles_def)
qed

lemma trimmed_train_eq:
  "map fst (filter (\<lambda>(r, max_cycle). isna max_cycle \<or> lt_nan (cycle r) max_cycle)
        (join_max_cycle rough (min_cycles lookback test)))
   = filter (\<lambda>r. machineID r \<in> entities test
               \<longrightarrow> cycle r < min_test_cycle test (machineID r) - lookback) rough"
  by (induction rough) (auto simp: join_max_cycle_def min_cycles_eq)

text \<open>
  C2. In a time-based split, with \<open>rough\<close> the training part of the unshuffled cut: the
  training rows that are kept are rows of \<open>rough\<close>; a kept row of a machine that has rows in
  the test part has a cycle below that machine's first test cycle minus \<open>lookback\<close>; and every
  row of \<open>rough\<close> of a machine without test rows is kept.
\<close>

theorem time_split_trims_leakage:
  assumes "0 < test_size" and "test_size < 1"
  shows "\<exists>train test rough.
           time_based_split lookback test_size data = Inr (train, test)
         \<and> train_test_split_ordered test_size (sort_key entryID data) = Inr (rough, test)
         \<and> set train \<subseteq> set rough
         \<and> (\<forall>r \<in> set train. machineID r \<in> entities test
               \<longrightarrow> cycle r < min_test_cycle test (machineID r) - lookback)
         \<and> (\<forall>r \<in> set rough. machineID r \<notin> entities test \<longrightarrow> r \<in> set train)"
proof -
  let ?d = "sort_key entryID data"
  obtain rough test where rt: "train_test_split_ordered test_size ?d = Inr (rough, test)"
    using assms by (simp add: train_test_split_ordered_def validate_ok)
  let ?train = "filter (\<lambda>r. machineID r \<in> entities test
                   \<longrightarrow> cycle r < min_test_cycle test (machineID r) - lookback) rough"
  have "time_based_split lookback test_size data = Inr (?train, test)"
    using rt by (simp add: time_based_split_def Let_def trimmed_train_eq)
  with rt show ?thesis by auto
qed

lemma example_log_time_split:
  "time_based_split 1 (1 / 5) example_log
     = Inr ([obs 1 1 1, obs 2 1 2, obs 3 1 3, obs 4 2 1, obs 5 2 2, obs 6 1 4, obs 7 1 5],
            [obs 9 1 7, obs 10 1 8])"
  by (simp add: time_based_split_def train_test_split_ordered_def validate_shuffle_split_def
      example_log_def obs_def join_max_cycle_def min_cycles_def Let_def)

lemma example_log_rough_cut:
  "train_test_split_ordered (1 / 5) (sort_key entryID example_log)
     = Inr ([obs 1 1 1, obs 2 1 2, obs 3 1 3, obs 4 2 1, obs 5 2 2, obs 6 1 4, obs 7 1 5, obs 8 1 6],
            [obs 9 1 7, obs 10 1 8])"
  by (simp add: train_test_split_ordered_def validate_shuffle_split_def example_log_def obs_def
      Let_def)

theorem time_split_trims_leakage_witness:
  "\<exists>train test rough.
     time_based_split 1 (1 / 5) example_log = Inr (train, test)
   \<and> train_test_split_ordered (1 / 5) (sort_key entryID example_log) = Inr (rough, test)
   \<and> set train \<subseteq> set rough
   \<and> (\<forall>r \<in> set train. machineID r \<in> entities test
         \<longrightarrow> cycle r < min_test_cycle test (machineID r) - 1)
   \<and> (\<forall>r \<in> set rough. machineID r \<notin> entities test \<longrightarrow> r \<in> set train)
   \<and> obs 7 1 5 \<in> set train \<and> obs 8 1 6 \<in> set rough \<and> obs 8 1 6 \<notin> set train
   \<and> obs 4 2 1 \<in> set train \<and> entities test = {1}"
proof -
  have "(0::rat) < 1 / 5" and "(1::rat) / 5 < 1" by simp_all
  from time_split_trims_leakage [OF this, of 1 example_log]
  obtain train test rough where
    s: "time_based_split 1 (1 / 5) example_log = Inr (train, test)" and
    c: "train_test_split_ordered (1 / 5) (sort_key entryID example_log) = Inr (rough, test)" and
    p: "set train \<subseteq> set rough"
       "\<forall>r \<in> set train. machineID r \<in> entities test
           \<longrightarrow> cycle r < min_test_cycle test (machineID r) - 1"
       "\<forall>r \<in> set rough. machineID r \<notin> entities test \<longrightarrow> r \<in> set train"
    by blast
  have tr: "train = [obs 1 1 1, obs 2 1 2, obs 3 1 3, obs 4 2 1, obs 5 2 2, obs 6 1 4, obs 7 1 5]"
    and te: "test = [obs 9 1 7, obs 10 1 8]"
    using s example_log_time_split by simp_all
  have ro: "rough = [obs 1 1 1, obs 2 1 2, obs 3 1 3, obs 4 2 1, obs 5 2 2, obs 6 1 4, obs 7 1 5,
                     obs 8 1 6]"
    using c example_log_rough_cut by simp
  have m: "obs 7 1 5 \<in> set train" "obs 8 1 6 \<in> set rough" "obs 8 1 6 \<notin> set train"
    "obs 4 2 1 \<in> set train" "entities test = {1}"
    unfolding tr te ro by (simp_all add: obs_def entities_def)
  show ?thesis using s c p m by blast
qed

subsection \<open>Asset ID-based split\<close>

lemma is_permutation_mset: "is_permutation p n \<Longrightarrow> mset p = mset [0..<n]"
  unfolding is_permutation_def by (metis mset_sort)

lemma is_permutation_facts:
  assumes "is_permutation p n"
  shows "set p = {0..<n}" and "distinct p" and "length p = n"
proof -
  have m: "mset p = mset [0..<n]" using assms by (rule is_permutation_mset)
  show "set p = {0..<n}" using m by (metis mset_eq_setD set_upt)
  show "distinct p" using m by (metis distinct_upt mset_eq_imp_distinct_iff)
  show "length p = n" using m by (metis length_upt mset_eq_length minus_nat.diff_0)
qed

lemma unique_set [simp]: "set (unique xs) = set xs"
  by (simp add: unique_def)

lemma unique_distinct [simp]: "distinct (unique xs)"
  by (simp add: unique_def)

lemma shuffled_parts:
  assumes perm: "is_permutation p (length arr)" and d: "distinct arr" and le: "k \<le> length arr"
  shows "set (map (\<lambda>i. arr ! i) (take (length arr - k) (drop k p)))
           \<inter> set (map (\<lambda>i. arr ! i) (take k p)) = {}"
    and "set (map (\<lambda>i. arr ! i) (take (length arr - k) (drop k p)))
           \<union> set (map (\<lambda>i. arr ! i) (take k p)) = set arr"
    and "distinct (map (\<lambda>i. arr ! i) (take k p))"
    and "distinct (map (\<lambda>i. arr ! i) (take (length arr - k) (drop k p)))"
proof -
  note pf = is_permutation_facts [OF perm]
  have whole: "take (length arr - k) (drop k p) = drop k p"
    using pf(3) by simp
  have inj: "inj_on (\<lambda>i. arr ! i) (set p)"
    using d pf(1) by (auto simp: inj_on_def nth_eq_iff_index_eq)
  have disj: "set (drop k p) \<inter> set (take k p) = {}"
    using pf(2) by (metis append_take_drop_id distinct_append inf_commute)
  have un: "set (drop k p) \<union> set (take k p) = set p"
    by (metis append_take_drop_id set_append sup_commute)
  have sub1: "set (drop k p) \<subseteq> set p" and sub2: "set (take k p) \<subseteq> set p"
    using un by auto
  show "set (map (\<lambda>i. arr ! i) (take (length arr - k) (drop k p)))
          \<inter> set (map (\<lambda>i. arr ! i) (take k p)) = {}"
    unfolding whole set_map
    using inj_on_image_Int [OF inj sub1 sub2] disj by simp
  have "(\<lambda>i. arr ! i) ` set p = set arr"
    using pf(1) by (auto simp: set_conv_nth)
  then show "set (map (\<lambda>i. arr ! i) (take (length arr - k) (drop k p)))
          \<union> set (map (\<lambda>i. arr ! i) (take k p)) = set arr"
    unfolding whole set_map image_Un [symmetric] un by simp
  show "distinct (map (\<lambda>i. arr ! i) (take k p))"
    using pf(2) inj sub2 by (simp add: distinct_map inj_on_subset)
  show "distinct (map (\<lambda>i. arr ! i) (take (length arr - k) (drop k p)))"
    unfolding whole using pf(2) inj sub1 by (simp add: distinct_map inj_on_subset)
qed

lemma entities_filter_isin:
  "set assets \<subseteq> entities data
   \<Longrightarrow> entities (filter (\<lambda>r. isin (machineID r) assets) data) = set assets"
  by (auto simp: entities_def isin_def)

lemma entity_based_split_eq:
  assumes "0 < test_size" and "test_size < 1"
  shows "entity_based_split rng seed test_size data =
     (let ua = unique (map machineID data);
          k = nat \<lceil>test_size * of_nat (length ua)\<rceil>;
          p = rng seed (length ua)
      in Inr (filter (\<lambda>r. isin (machineID r) (map (\<lambda>i. ua ! i) (take (length ua - k) (drop k p)))) data,
              filter (\<lambda>r. isin (machineID r) (map (\<lambda>i. ua ! i) (take k p))) data))"
  using assms
  by (simp add: entity_based_split_def train_test_split_shuffled_def validate_ok Let_def)

lemma entity_split_parts:
  assumes ts: "0 < test_size" "test_size < 1"
    and perm: "is_permutation (rng seed (length (unique (map machineID data))))
                 (length (unique (map machineID data)))"
  shows "\<exists>train test train_assets test_assets.
           entity_based_split rng seed test_size data = Inr (train, test)
         \<and> entities train = set train_assets \<and> entities test = set test_assets
         \<and> distinct train_assets \<and> distinct test_assets
         \<and> length test_assets = nat \<lceil>test_size * of_nat (card (entities data))\<rceil>
         \<and> length train_assets = card (entities data) - length test_assets
         \<and> set train_assets \<inter> set test_assets = {}
         \<and> set train_assets \<union> set test_assets = entities data"
proof -
  let ?ua = "unique (map machineID data)"
  let ?k = "nat \<lceil>test_size * of_nat (length ?ua)\<rceil>"
  let ?p = "rng seed (length ?ua)"
  let ?tr = "map (\<lambda>i. ?ua ! i) (take (length ?ua - ?k) (drop ?k ?p))"
  let ?te = "map (\<lambda>i. ?ua ! i) (take ?k ?p)"
  have le: "?k \<le> length ?ua" using ts by (rule n_test_le)
  note parts = shuffled_parts [OF perm unique_distinct le]
  have ua: "set ?ua = entities data" by (simp add: entities_def)
  have n: "length ?ua = card (entities data)"
    using distinct_card [OF unique_distinct, of "map machineID data"] ua by simp
  have lp: "length ?p = length ?ua" using is_permutation_facts(3) [OF perm] .
  have e1: "entities (filter (\<lambda>r. isin (machineID r) ?tr) data) = set ?tr"
    by (rule entities_filter_isin) (use parts(2) ua in blast)
  have e2: "entities (filter (\<lambda>r. isin (machineID r) ?te) data) = set ?te"
    by (rule entities_filter_isin) (use parts(2) ua in blast)
  have l2: "length ?te = nat \<lceil>test_size * of_nat (card (entities data))\<rceil>"
    using le lp n by simp
  have l1: "length ?tr = card (entities data) - length ?te"
    using le lp n by simp
  have "entity_based_split rng seed test_size data
          = Inr (filter (\<lambda>r. isin (machineID r) ?tr) data, filter (\<lambda>r. isin (machineID r) ?te) data)"
    using ts by (simp add: entity_based_split_eq Let_def)
  then show ?thesis
    using e1 e2 parts(1) parts(2) parts(3) parts(4) l1 l2 ua by blast
qed

text \<open>
  C3. In an asset ID-based split, whenever the generator draws a permutation: the machines of
  the training part and the machines of the test part are disjoint, and together they are the
  machines of the input table.
\<close>

theorem entity_split_partitions_entities:
  assumes "0 < test_size" and "test_size < 1"
    and "is_permutation (rng seed (length (unique (map machineID data))))
           (length (unique (map machineID data)))"
  shows "\<exists>train test.
           entity_based_split rng seed test_size data = Inr (train, test)
         \<and> entities train \<inter> entities test = {}
         \<and> entities train \<union> entities test = entities data"
  using entity_split_parts [where rng = rng and seed = seed, OF assms] by metis

lemma example_log_assets: "unique (map machineID example_log) = [1, 2]"
  by (simp add: unique_def example_log_def obs_def)

lemma descending_2: "is_permutation (descending 42 2) 2"
  by code_simp

lemma example_log_entity_split:
  "entity_based_split descending 42 (1 / 5) example_log
     = Inr ([obs 1 1 1, obs 2 1 2, obs 3 1 3, obs 6 1 4, obs 7 1 5, obs 8 1 6, obs 9 1 7, obs 10 1 8],
            [obs 4 2 1, obs 5 2 2])"
  by code_simp

theorem entity_split_partitions_entities_witness:
  "\<exists>train test.
     entity_based_split descending 42 (1 / 5) example_log = Inr (train, test)
   \<and> entities train \<inter> entities test = {}
   \<and> entities train \<union> entities test = entities example_log
   \<and> entities train = {1} \<and> entities test = {2}"
proof -
  have "(0::rat) < 1 / 5" and "(1::rat) / 5 < 1" by simp_all
  moreover have "length (unique (map machineID example_log)) = 2"
    by (simp add: example_log_assets)
  then have "is_permutation (descending 42 (length (unique (map machineID example_log))))
               (length (unique (map machineID example_log)))"
    by (simp only: descending_2)
  ultimately obtain train test where
    s: "entity_based_split descending 42 (1 / 5) example_log = Inr (train, test)" and
    p: "entities train \<inter> entities test = {}"
       "entities train \<union> entities test = entities example_log"
    using entity_split_partitions_entities [of "1 / 5" descending 42 example_log] by blast
  have "entities train = {1}" and "entities test = {2}"
    using s example_log_entity_split by (auto simp: entities_def obs_def)
  with s p show ?thesis by blast
qed

subsection \<open>Reproducibility\<close>

text \<open>
  C8. (1) The asset ID-based split depends on the generator only through the permutation it
  draws for the seed: two runs on the same table with the same seed and test fraction, whose
  generators draw the same permutation for that seed, bind the same training and test parts.
  (2) With ten machines and a test fraction of 0.2, exactly two machines are in the test part
  (and eight in the training part). (3) The time-based split does not depend on the generator
  or on the seed.
\<close>

theorem split_reproducible:
  "(rng seed (length (unique (map machineID data))) = rng' seed (length (unique (map machineID data)))
      \<longrightarrow> split_cell False lookback test_size rng seed data
            = split_cell False lookback test_size rng' seed data)
   \<and> (card (entities data) = 10 \<and> is_permutation (rng seed 10) 10
      \<longrightarrow> (\<exists>train test. split_cell False lookback (1 / 5) rng seed data = Inr (train, test)
            \<and> card (entities test) = 2 \<and> card (entities train) = 8))
   \<and> split_cell True lookback test_size rng seed data
       = split_cell True lookback test_size rng' seed' data"
proof (intro conjI impI)
  assume eq: "rng seed (length (unique (map machineID data)))
                = rng' seed (length (unique (map machineID data)))"
  show "split_cell False lookback test_size rng seed data
          = split_cell False lookback test_size rng' seed data"
    unfolding split_cell_def entity_based_split_def train_test_split_shuffled_def Let_def eq
    by simp
next
  assume a: "card (entities data) = 10 \<and> is_permutation (rng seed 10) 10"
  have n: "length (unique (map machineID data)) = card (entities data)"
    using distinct_card [OF unique_distinct, of "map machineID data"]
    by (simp add: entities_def)
  have perm: "is_permutation (rng seed (length (unique (map machineID data))))
                (length (unique (map machineID data)))"
    using a n by simp
  have ts: "(0::rat) < 1 / 5" "(1::rat) / 5 < 1" by simp_all
  obtain train test train_assets test_assets where
    s: "entity_based_split rng seed (1 / 5) data = Inr (train, test)" and
    e: "entities train = set train_assets" "entities test = set test_assets" and
    d: "distinct train_assets" "distinct test_assets" and
    l: "length test_assets = nat \<lceil>(1 / 5 :: rat) * of_nat (card (entities data))\<rceil>"
       "length train_assets = card (entities data) - length test_assets"
    using entity_split_parts [where rng = rng and seed = seed, OF ts perm] by blast
  have "length test_assets = 2" using l(1) a by simp
  moreover from this have "length train_assets = 8" using l(2) a by simp
  ultimately have "card (entities test) = 2" and "card (entities train) = 8"
    using e d by (simp_all add: distinct_card)
  with s show "\<exists>train test. split_cell False lookback (1 / 5) rng seed data = Inr (train, test)
                 \<and> card (entities test) = 2 \<and> card (entities train) = 8"
    by (simp add: split_cell_def)
next
  show "split_cell True lookback test_size rng seed data
          = split_cell True lookback test_size rng' seed' data"
    by (simp add: split_cell_def)
qed

lemma example_fleet_assets:
  "unique (map machineID example_fleet) = [11, 12, 13, 14, 15, 16, 17, 18, 19, 20]"
  by code_simp

lemma descending_10: "is_permutation (descending 42 10) 10"
  by code_simp

lemma other_rng_42: "other_rng 42 n = descending 42 n"
  by (simp add: other_rng_def descending_def)

lemma example_fleet_card: "card (entities example_fleet) = 10"
proof -
  have "entities example_fleet = set (unique (map machineID example_fleet))"
    by (simp add: entities_def)
  also have "card \<dots> = length (unique (map machineID example_fleet))"
    by (rule distinct_card) simp
  finally show ?thesis by (simp add: example_fleet_assets)
qed

theorem split_reproducible_witness:
  "split_cell False 5 (1 / 5) descending 42 example_fleet
     = split_cell False 5 (1 / 5) other_rng 42 example_fleet
   \<and> (\<exists>train test. split_cell False 5 (1 / 5) descending 42 example_fleet = Inr (train, test)
        \<and> card (entities test) = 2 \<and> card (entities train) = 8)
   \<and> split_cell True 5 (1 / 5) descending 42 example_fleet
       = split_cell True 5 (1 / 5) other_rng 7 example_fleet"
proof -
  note r = split_reproducible [of descending 42 example_fleet other_rng 5 "1 / 5" 7]
  have a: "descending 42 (length (unique (map machineID example_fleet)))
             = other_rng 42 (length (unique (map machineID example_fleet)))"
    by (simp add: other_rng_42)
  have b: "card (entities example_fleet) = 10 \<and> is_permutation (descending 42 10) 10"
    using example_fleet_card descending_10 by simp
  from r a b show ?thesis by blast
qed

section \<open>Properties of \<^verbatim>\<open>xy_split\<close>\<close>

lemma xy_split_defined:
  "set columns_to_drop \<subseteq> set (map fst (cols data)) \<Longrightarrow> \<exists>X y. xy_split data = Inr (X, y)"
proof -
  assume a: "set columns_to_drop \<subseteq> set (map fst (cols data))"
  then have "list_all (\<lambda>l. l \<in> set (map fst (cols data))) columns_to_drop"
    by (auto simp: list_all_iff)
  moreover have "''immediate_failure'' \<in> set (map fst (cols data))"
    using a by (auto simp: columns_to_drop_def)
  then obtain v where "map_of (cols data) ''immediate_failure'' = Some v"
    by (metis map_of_eq_None_iff not_Some_eq set_map)
  ultimately show ?thesis
    by (simp add: xy_split_def drop_columns_def getitem_def reset_index_drop_def Let_def)
qed

text \<open>
  C10. Whenever \<^verbatim>\<open>xy_split\<close> returns, the feature table has none of the columns
  \<^verbatim>\<open>cycle\<close>, \<^verbatim>\<open>immediate_failure\<close>, \<^verbatim>\<open>rul\<close>, \<^verbatim>\<open>sequenceID\<close>, \<^verbatim>\<open>machineID\<close> (its columns are the
  other columns of the input, in their order), and the label vector holds the values of the
  input's column \<^verbatim>\<open>immediate_failure\<close>, in row order.
\<close>

theorem xy_split_separates:
  assumes "xy_split data = Inr (X, y)"
  shows "(\<forall>c \<in> set [''cycle'', ''immediate_failure'', ''rul'', ''sequenceID'', ''machineID''].
            c \<notin> set (map fst (cols X)))
       \<and> cols X = filter (\<lambda>(n, v). n \<notin> set columns_to_drop) (cols data)
       \<and> map_of (cols data) ''immediate_failure'' = Some (snd y)
       \<and> (''immediate_failure'', snd y) \<in> set (cols data)"
proof -
  let ?d = "reset_index_drop data"
  have c: "cols ?d = cols data" by (simp add: reset_index_drop_def)
  from assms obtain Xf where
    dr: "drop_columns columns_to_drop ?d = Inr Xf" and
    gi: "getitem ?d ''immediate_failure'' = Inr y" and x: "X = Xf"
    by (auto simp: xy_split_def Let_def split: sum.splits)
  from dr have cx: "cols X = filter (\<lambda>(n, v). n \<notin> set columns_to_drop) (cols data)"
    using c x by (auto simp: drop_columns_def split: if_splits)
  from gi have m: "map_of (cols data) ''immediate_failure'' = Some (snd y)"
    using c by (auto simp: getitem_def split: option.splits)
  have "\<forall>c \<in> set columns_to_drop. c \<notin> set (map fst (cols X))"
    unfolding cx by auto
  then have "\<forall>c \<in> set [''cycle'', ''immediate_failure'', ''rul'', ''sequenceID'', ''machineID''].
               c \<notin> set (map fst (cols X))"
    by (simp only: columns_to_drop_def)
  with cx m map_of_SomeD [OF m] show ?thesis by blast
qed

lemma example_frame_xy_split:
  "xy_split example_frame =
     Inr (\<lparr>index = [0, 1, 2],
           cols = [(''s1_mean'', [Num 3, Num 4, Num 5]), (''s2_mean'', [Num 6, Num 7, Num 8])]\<rparr>,
          ([0, 1, 2], [Str '''', Str ''F1'', Str '''']))"
  by (simp add: xy_split_def drop_columns_def getitem_def reset_index_drop_def Let_def
      example_frame_def columns_to_drop_def upt_rec)

theorem xy_split_separates_witness:
  "xy_split example_frame =
     Inr (\<lparr>index = [0, 1, 2],
           cols = [(''s1_mean'', [Num 3, Num 4, Num 5]), (''s2_mean'', [Num 6, Num 7, Num 8])]\<rparr>,
          ([0, 1, 2], [Str '''', Str ''F1'', Str '''']))
   \<and> map_of (cols example_frame) ''immediate_failure'' = Some [Str '''', Str ''F1'', Str '''']
   \<and> (''immediate_failure'', [Str '''', Str ''F1'', Str '''']) \<in> set (cols example_frame)"
  using xy_split_separates [OF example_frame_xy_split] example_frame_xy_split by simp

section \<open>Properties of the balancing cell\<close>

subsection \<open>Counting\<close>












subsection \<open>The sampler\<close>

lemma count_list_replicate: "count_list (replicate n c) l = (if c = l then n else 0)"
  by (induction n) auto

lemma sample_classes_result:
  "sample_classes k ms X y r (Xr, yr) = Inr (X', Y') \<Longrightarrow>
   \<exists>Xn Yn. X' = Xr @ Xn \<and> Y' = yr @ Yn
     \<and> list_all2 (\<lambda>x l. \<exists>j. x = ms l (rows_of_class l X y) j
                           \<and> k < length (rows_of_class l X y)) Xn Yn
     \<and> (\<forall>l. count_list Yn l = sum_list (map snd (filter (\<lambda>p. fst p = l) r)))"
proof (induction r arbitrary: Xr yr)
  case Nil
  then have "X' = Xr @ []" and "Y' = yr @ []" by simp_all
  then show ?case by (intro exI [of _ "[]"] conjI) simp_all
next
  case (Cons a r)
  let ?P = "\<lambda>x l. \<exists>j. x = ms l (rows_of_class l X y) j \<and> k < length (rows_of_class l X y)"
  obtain c n where a: "a = (c, n)" by (cases a)
  show ?case
  proof (cases "n = 0")
    case True
    with Cons.prems a have "sample_classes k ms X y r (Xr, yr) = Inr (X', Y')" by simp
    from Cons.IH [OF this] obtain Xn Yn where
      r: "X' = Xr @ Xn" "Y' = yr @ Yn" "list_all2 ?P Xn Yn"
         "\<forall>l. count_list Yn l = sum_list (map snd (filter (\<lambda>p. fst p = l) r))"
      by blast
    have "\<forall>l. count_list Yn l = sum_list (map snd (filter (\<lambda>p. fst p = l) (a # r)))"
      using r(4) a True by simp
    with r(1,2,3) show ?thesis by (intro exI [of _ Xn] exI [of _ Yn] conjI)
  next
    case False
    let ?Xc = "rows_of_class c X y"
    let ?Xa = "map (ms c ?Xc) [0..<n]"
    let ?ya = "replicate n c"
    have big: "k < length ?Xc"
    proof (rule ccontr)
      assume "\<not> k < length ?Xc"
      with Cons.prems a False show False by (simp add: Let_def)
    qed
    with Cons.prems a False
    have "sample_classes k ms X y r (Xr @ ?Xa, yr @ ?ya) = Inr (X', Y')"
      by (simp add: Let_def)
    from Cons.IH [OF this] obtain Xn Yn where
      r: "X' = (Xr @ ?Xa) @ Xn" "Y' = (yr @ ?ya) @ Yn" "list_all2 ?P Xn Yn"
         "\<forall>l. count_list Yn l = sum_list (map snd (filter (\<lambda>p. fst p = l) r))"
      by blast
    have h: "list_all2 ?P ?Xa ?ya"
      unfolding list_all2_conv_all_nth
    proof (intro conjI allI impI)
      show "length ?Xa = length ?ya" by simp
    next
      fix i assume "i < length ?Xa"
      then have i: "i < n" by simp
      then have "?Xa ! i = ms c ?Xc i" and "?ya ! i = c" by simp_all
      with big show "?P (?Xa ! i) (?ya ! i)" by metis
    qed
    have 1: "list_all2 ?P (?Xa @ Xn) (?ya @ Yn)"
      using h r(3) by (rule list_all2_appendI)
    have 2: "\<forall>l. count_list (?ya @ Yn) l
                   = sum_list (map snd (filter (\<lambda>p. fst p = l) (a # r)))"
      using r(4) a by (simp add: count_list_replicate)
    have 3: "X' = Xr @ (?Xa @ Xn)" and 4: "Y' = yr @ (?ya @ Yn)"
      using r(1,2) by simp_all
    from 3 4 1 2 show ?thesis
      by (intro exI [of _ "?Xa @ Xn"] exI [of _ "?ya @ Yn"] conjI)
  qed
qed






subsection \<open>Rounding\<close>

lemma pow2_pos [simp]: "0 < pow2 e"
  by (simp add: pow2_def)


lemma ilog2_less:
  assumes "0 < a"
  shows "a < pow2 (ilog2 a + 1)"
proof -
  obtain p q where pq: "quotient_of a = (p, q)" by (cases "quotient_of a")
  have q: "0 < q" using pq by (rule quotient_of_denom_pos)
  have a: "a = of_int p / of_int q" using pq by (rule quotient_of_div)
  have p: "0 < p" using assms q unfolding a by (simp add: zero_less_divide_iff)
  let ?d = "bitlen p - bitlen q"
  show ?thesis
  proof (cases "pow2 ?d \<le> a")
    case False
    then show ?thesis by (simp add: ilog2_def pq)
  next
    case True
    have bp: "p < 2 ^ nat (bitlen p)" and bq: "2 ^ nat (bitlen q - 1) \<le> q"
      using bitlen_bounds [OF p] bitlen_bounds [OF q] by simp_all
    have q1: "1 \<le> bitlen q" using q bitlen_eq_zero_iff [of q] bitlen_nonneg [of q] by linarith
    have "of_int p / of_int q < (2::rat) ^ nat (bitlen p) / 2 ^ nat (bitlen q - 1)"
    proof (rule frac_less)
      show "(0::rat) \<le> of_int p" using p by simp
      have "(of_int p :: rat) < of_int (2 ^ nat (bitlen p))"
        using bp by (simp only: of_int_less_iff)
      then show "(of_int p :: rat) < 2 ^ nat (bitlen p)" by simp
      show "(0::rat) < 2 ^ nat (bitlen q - 1)" by simp
      have "(of_int (2 ^ nat (bitlen q - 1)) :: rat) \<le> of_int q"
        using bq by (simp only: of_int_le_iff)
      then show "(2::rat) ^ nat (bitlen q - 1) \<le> of_int q" by simp
    qed
    also have "\<dots> = 2 powi (bitlen p) / 2 powi (bitlen q - 1)"
      using q1 bitlen_nonneg [of p] by (simp add: power_int_nonneg_exp)
    also have "\<dots> = pow2 (bitlen p - (bitlen q - 1))"
      unfolding pow2_def by (rule power_int_diff [symmetric]) simp
    also have "\<dots> = pow2 (?d + 1)" by (simp add: algebra_simps)
    finally have *: "of_int p / of_int q < pow2 (?d + 1)" .
    have il: "ilog2 a = ?d" using True by (simp add: ilog2_def pq)
    show ?thesis unfolding il using * a by simp
  qed
qed

text \<open>The float of the literal \<^verbatim>\<open>0.1\<close>, and \<^verbatim>\<open>0.1 + 0.2 = 0.30000000000000004\<close>.\<close>

lemma double_tenth: "double (1 / 10) = 3602879701896397 / 36028797018963968"
  by code_simp

lemma double_sum_example:
  "double (double (1 / 10) + double (1 / 5)) = 5404319552844596 / 18014398509481984"
  by code_simp





subsection \<open>The cell\<close>


lemma ratio_not_greater: "scale tmf Y = Finite s \<Longrightarrow> s \<le> 1 \<Longrightarrow> ratio tmf Y = None"
  by (simp add: ratio_def)











lemma balance_not_greater:
  assumes "scale tmf Y = Finite s" and "s \<le> 1"
  shows "balance policy k ms seed tmf X Y = fit_sample policy k (ms seed) None X Y"
  by (simp add: balance_def ratio_not_greater [OF assms])








lemma fit_sample_result:
  assumes "fit_sample policy k ms rt X Y = Inr (X', Y')"
  shows "length X = length Y \<and> 2 \<le> length (unique Y)
     \<and> (\<exists>Xn Yn. X' = X @ Xn \<and> Y' = Y @ Yn \<and> length Xn = length Yn
          \<and> list_all2 (\<lambda>x l. \<exists>j. x = ms l (rows_of_class l X Y) j
                                \<and> k < length (rows_of_class l X Y)) Xn Yn)"
proof -
  from assms have len: "length X = length Y" and two: "2 \<le> length (unique Y)"
    by (auto simp: fit_sample_def split: if_splits)
  from assms len two obtain r where "sample_classes k ms X Y r (X, Y) = Inr (X', Y')"
    by (auto simp: fit_sample_def split: option.splits none_policy.splits sum.splits)
  from sample_classes_result [OF this] obtain Xn Yn where
    r: "X' = X @ Xn" "Y' = Y @ Yn"
       "list_all2 (\<lambda>x l. \<exists>j. x = ms l (rows_of_class l X Y) j
                            \<and> k < length (rows_of_class l X Y)) Xn Yn"
    by blast
  have "length Xn = length Yn" using r(3) by (rule list_all2_lengthD)
  with r len two show ?thesis by blast
qed

subsection \<open>Scale at most 1\<close>

lemma labels_8_6_scale:
  "scale (1 / 10) labels_8_6 = Finite (8406719304424927 / 36028797018963968)"
  by code_simp

lemma labels_8_6_ratio: "ratio (1 / 10) labels_8_6 = None"
  by code_simp

lemma labels_8_6_rejected:
  "balancing_cell NoneRejected (make_samples example_draws 5) (features 14) labels_8_6
     = Inl AttributeError"
  by code_simp

lemma labels_8_6_auto:
  "balancing_cell NoneIsAuto (make_samples example_draws 5) (features 14) labels_8_6
     = Inr (features 14 @ [[17 / 2], [17 / 2]], labels_8_6 @ [''F1'', ''F1''])"
  by code_simp

lemma labels_9_1_scale: "scale (1 / 10) labels_9_1 = Finite 1"
  by code_simp

lemma labels_9_1_ratio: "ratio (1 / 10) labels_9_1 = None"
  by code_simp

lemma labels_9_1_rejected:
  "balancing_cell NoneRejected (make_samples example_draws 5) (features 10) labels_9_1
     = Inl AttributeError"
  by code_simp

lemma labels_9_1_auto:
  "balancing_cell NoneIsAuto (make_samples example_draws 5) (features 10) labels_9_1
     = Inl ValueError"
  by code_simp

text \<open>
  C1. The cell guards only the computation of the targets with \<^verbatim>\<open>if scale > 1\<close>; the sampler
  is built and called below the guard, with \<^verbatim>\<open>ratio = None\<close> when the scale is at most 1.
  With 8 rows labelled \<open>''''\<close> and 6 labelled \<open>''F1''\<close> the scale is about 0.23 and no
  targets are computed; the call fails in release 0.3 of the library, so that the cell
  returns nothing, and under the default strategy of the later releases it returns two rows
  more than it was given. With 9 rows labelled \<open>''''\<close> and one labelled \<open>''F1''\<close> the scale
  is exactly 1, and the call fails under both. In no case does the cell return the features
  and labels unchanged.
\<close>

theorem balancing_cell_scale_le_1:
  "scale (1 / 10) labels_8_6 = Finite (8406719304424927 / 36028797018963968)
   \<and> (8406719304424927 / 36028797018963968 :: rat) \<le> 1
   \<and> ratio (1 / 10) labels_8_6 = None
   \<and> balancing_cell NoneRejected (make_samples example_draws 5) (features 14) labels_8_6
       = Inl AttributeError
   \<and> balancing_cell NoneIsAuto (make_samples example_draws 5) (features 14) labels_8_6
       = Inr (features 14 @ [[17 / 2], [17 / 2]], labels_8_6 @ [''F1'', ''F1''])
   \<and> scale (1 / 10) labels_9_1 = Finite 1
   \<and> ratio (1 / 10) labels_9_1 = None
   \<and> balancing_cell NoneRejected (make_samples example_draws 5) (features 10) labels_9_1
       = Inl AttributeError
   \<and> balancing_cell NoneIsAuto (make_samples example_draws 5) (features 10) labels_9_1
       = Inl ValueError"
  by (simp add: labels_8_6_scale labels_8_6_ratio labels_8_6_rejected labels_8_6_auto
      labels_9_1_scale labels_9_1_ratio labels_9_1_rejected labels_9_1_auto)

subsection \<open>Scale above 1\<close>















subsection \<open>Failures\<close>






subsection \<open>Original and new rows\<close>

lemma make_samples_in_hull:
  assumes ok: "draws_ok d seed" and k: "0 < k" and ne: "X_class \<noteq> []"
  shows "convex_hull (set X_class) (make_samples d k seed c X_class j)"
proof -
  let ?si = "randint d seed c j (length X_class * k)"
  let ?st = "uniform d seed c j"
  let ?x = "X_class ! (?si div k)"
  let ?z = "X_class ! (nns d X_class (?si div k) (?si mod k))"
  have hi: "0 < length X_class * k" using k ne by simp
  have "?si < length X_class * k" using ok hi unfolding draws_ok_def by blast
  then have row: "?si div k < length X_class" by (simp add: less_mult_imp_div_less)
  have nb: "nns d X_class (?si div k) (?si mod k) < length X_class"
    using ok row unfolding draws_ok_def by blast
  have st: "0 \<le> ?st" "?st \<le> 1" using ok unfolding draws_ok_def by blast+
  have f: "(\<lambda>a b. a - ?st * (a - b)) = (\<lambda>a b. (1 - ?st) * a + ?st * b)"
    by (intro ext) (simp add: algebra_simps)
  have "convex_hull (set X_class) (map2 (\<lambda>a b. (1 - ?st) * a + ?st * b) ?x ?z)"
    by (intro convex_hull.segment convex_hull.point nth_mem row nb st)
  then show ?thesis by (simp add: make_samples_def Let_def f)
qed

text \<open>
  C6. Whenever the balancing cell returns a result, new rows being made as the spec describes
  from draws within their ranges: the result is the input followed by the new rows, so every
  original row is in it, unchanged, and the number of rows grows by the number of new rows;
  and every new row lies in the convex hull of the original rows that carry its label.
\<close>

theorem balance_keeps_originals:
  assumes "balance policy k (make_samples d k) seed tmf X Y = Inr (X', Y')"
    and "draws_ok d seed" and "0 < k"
  shows "\<exists>Xn Yn. X' = X @ Xn \<and> Y' = Y @ Yn \<and> length Xn = length Yn
           \<and> length X' = length X + length Xn
           \<and> (\<forall>i < length Xn. convex_hull (set (rows_of_class (Yn ! i) X Y)) (Xn ! i))"
proof -
  let ?P = "\<lambda>x l. \<exists>j. x = make_samples d k seed l (rows_of_class l X Y) j
                       \<and> k < length (rows_of_class l X Y)"
  from assms(1)
  have "fit_sample policy k (make_samples d k seed) (ratio tmf Y) X Y = Inr (X', Y')"
    by (simp add: balance_def)
  from fit_sample_result [OF this] obtain Xn Yn where
    r: "X' = X @ Xn" "Y' = Y @ Yn" "length Xn = length Yn" "list_all2 ?P Xn Yn"
    by blast
  have "convex_hull (set (rows_of_class (Yn ! i) X Y)) (Xn ! i)" if i: "i < length Xn" for i
  proof -
    from list_all2_nthD [OF r(4) i] obtain j where
      j: "Xn ! i = make_samples d k seed (Yn ! i) (rows_of_class (Yn ! i) X Y) j"
      and big: "k < length (rows_of_class (Yn ! i) X Y)" by blast
    from big have "rows_of_class (Yn ! i) X Y \<noteq> []" by auto
    from make_samples_in_hull [OF assms(2,3) this] show ?thesis unfolding j .
  qed
  with r(1,2,3) show ?thesis by simp
qed

lemma example_draws_ok: "draws_ok example_draws seed"
proof -
  have "Suc (row + col) mod length X_class < length X_class"
    if "row < length X_class" for X_class :: "rat list list" and row col
    using that by (intro mod_less_divisor) auto
  then show ?thesis by (simp add: draws_ok_def example_draws_def)
qed

lemma labels_7_6_big_fraction:
  "balance NoneIsAuto 5 (make_samples example_draws 5) 42 (3 / 2) (features 13) labels_7_6
     = Inr (features 13 @ replicate 13 [15 / 2], labels_7_6 @ replicate 13 ''F1'')"
  by code_simp

theorem balance_keeps_originals_witness:
  "\<exists>Xn Yn. features 13 @ replicate 13 [15 / 2] = features 13 @ Xn
     \<and> labels_7_6 @ replicate 13 ''F1'' = labels_7_6 @ Yn \<and> length Xn = length Yn
     \<and> length (features 13 @ replicate 13 [15 / 2]) = length (features 13) + length Xn
     \<and> (\<forall>i < length Xn. convex_hull (set (rows_of_class (Yn ! i) (features 13) labels_7_6)) (Xn ! i))"
  using balance_keeps_originals [OF labels_7_6_big_fraction example_draws_ok] by simp

subsection \<open>Applying the cell twice\<close>

lemma labels_7_6_scale:
  "scale (1 / 10) labels_7_6 = Finite (1951559838527215 / 9007199254740992)"
  by code_simp

lemma labels_7_6_ratio: "ratio (1 / 10) labels_7_6 = None"
  by code_simp

lemma labels_7_6_rejected:
  "balancing_cell NoneRejected (make_samples example_draws 5) (features 13) labels_7_6
     = Inl AttributeError"
  by code_simp

lemma labels_7_6_auto:
  "balancing_cell NoneIsAuto (make_samples example_draws 5) (features 13) labels_7_6
     = Inr (features 13 @ [[15 / 2]], labels_7_6 @ [''F1''])"
  by code_simp

text \<open>
  C7. Applying the cell twice begins with applying it once, and with a scale of at most 1
  that is the call of the sampler with \<^verbatim>\<open>ratio = None\<close>, below the guard \<^verbatim>\<open>if scale > 1\<close>.
  With 7 rows labelled \<open>''''\<close> and 6 labelled \<open>''F1''\<close> the scale is about 0.22: the first
  application fails in release 0.3 of the library, so that there is no result to apply the
  cell to again, and under the default strategy of the later releases it returns one row
  more than it was given. Neither is the input.
\<close>

theorem balancing_cell_first_application:
  "scale (1 / 10) labels_7_6 = Finite (1951559838527215 / 9007199254740992)
   \<and> (1951559838527215 / 9007199254740992 :: rat) \<le> 1
   \<and> ratio (1 / 10) labels_7_6 = None
   \<and> balancing_cell NoneRejected (make_samples example_draws 5) (features 13) labels_7_6
       = Inl AttributeError
   \<and> balancing_cell NoneIsAuto (make_samples example_draws 5) (features 13) labels_7_6
       = Inr (features 13 @ [[15 / 2]], labels_7_6 @ [''F1''])"
  by (simp add: labels_7_6_scale labels_7_6_ratio labels_7_6_rejected labels_7_6_auto)

end
